theory Spec2Isabelle
  imports Complex_Main
begin

section \<open>Numbers and price bars\<close>

text \<open>
  The strategy computes on float64 values. They are modelled as reals: every value read
  from a price bar is finite and arithmetic is exact. What the source does on a zero
  denominator is written out: numpy arithmetic on array elements returns an infinity or
  a NaN (type \<open>npfloat\<close>), division of plain Python floats raises ZeroDivisionError.
\<close>

datatype npfloat = Fin real | PInf | NInf | NaN

definition np_div :: "real \<Rightarrow> real \<Rightarrow> npfloat" where
  "np_div a b =
     (if b \<noteq> 0 then Fin (a / b)
      else if 0 < a then PInf else if a < 0 then NInf else NaN)"

fun np_times :: "npfloat \<Rightarrow> real \<Rightarrow> npfloat" where
  "np_times (Fin x) c = Fin (x * c)"
| "np_times PInf c = (if 0 < c then PInf else if c < 0 then NInf else NaN)"
| "np_times NInf c = (if 0 < c then NInf else if c < 0 then PInf else NaN)"
| "np_times NaN c = NaN"

fun np_ge :: "npfloat \<Rightarrow> real \<Rightarrow> bool" where
  "np_ge (Fin x) c = (c \<le> x)"
| "np_ge PInf c = True"
| "np_ge NInf c = False"
| "np_ge NaN c = False"

fun np_le :: "npfloat \<Rightarrow> real \<Rightarrow> bool" where
  "np_le (Fin x) c = (x \<le> c)"
| "np_le PInf c = False"
| "np_le NInf c = True"
| "np_le NaN c = False"

fun np_gt :: "npfloat \<Rightarrow> real \<Rightarrow> bool" where
  "np_gt (Fin x) c = (c < x)"
| "np_gt PInf c = True"
| "np_gt NInf c = False"
| "np_gt NaN c = False"

text \<open>\<open>(a - b) / b * 100\<close> on numpy values.\<close>

definition pct_change :: "real \<Rightarrow> real \<Rightarrow> npfloat" where
  "pct_change a b = np_times (np_div (a - b) b) 100"

text \<open>One row of the frame returned by \<open>get_price\<close>; dates are day numbers.\<close>

record bar =
  b_date :: int
  b_open :: real
  b_close :: real
  b_high :: real
  b_low :: real
  b_volume :: real

text \<open>
  The outcome of a \<open>get_price\<close> call: it raised, it returned \<open>None\<close>, or it returned
  a frame, oldest bar first.
\<close>

datatype fetch_result = Raised | NoData | Data "bar list"

text \<open>Python's \<open>xs[a:b]\<close> for indices within \<open>0 .. len\<close>.\<close>

definition slice :: "'a list \<Rightarrow> nat \<Rightarrow> nat \<Rightarrow> 'a list" where
  "slice xs a b = take (b - a) (drop a xs)"

text \<open>
  Python's \<open>max\<close> and \<open>min\<close> of a sequence. On an empty sequence Python raises; every
  call site below passes a sequence that is not empty (lemmas \<open>slice_before_nonempty\<close>
  and \<open>slice_after_nonempty\<close> for the two slices of the leg search).
\<close>

fun py_max :: "real list \<Rightarrow> real" where
  "py_max (x # xs) = fold max xs x"

fun py_min :: "real list \<Rightarrow> real" where
  "py_min (x # xs) = fold min xs x"

text \<open>\<open>np.mean\<close> of a non-empty array.\<close>

definition np_mean :: "real list \<Rightarrow> real" where
  "np_mean xs = sum_list xs / real (length xs)"

record params =
  min_wave_score :: int
  position_ratio :: real
  immediate_stop_loss :: real
  immediate_take_profit :: real
  tail_take_profit :: real
  time_stop_days :: int

text \<open>The values set by \<open>initialize\<close>.\<close>

definition default_params :: params where
  "default_params =
     \<lparr>min_wave_score = 40, position_ratio = 0.1, immediate_stop_loss = 0.15,
      immediate_take_profit = 0.2, tail_take_profit = 0.15, time_stop_days = 30\<rparr>"

section \<open>Wave segmenter\<close>

text \<open>
  The loop of \<open>identify_three_waves\<close> that cuts the series into alternating legs. A leg
  is the dictionary appended to \<open>waves\<close>; \<open>support_levels\<close> is the second accumulator.
  Indices are naturals, so \<open>i - 3\<close> is Python's \<open>max(0, i - 3)\<close>, and the guards
  \<open>current_idx < len(data) - 10\<close> and \<open>i < len(data) - 3\<close> are written with the
  constant on the left-hand side.
\<close>

datatype direction = Up | Down

record wave =
  wave_type :: direction
  start_date :: int
  end_date :: int
  start_price :: real
  end_price :: real
  change_pct :: npfloat
  duration :: int
  support_level :: "real option"

definition flip :: "direction \<Rightarrow> direction" where
  "flip wt = (case wt of Up \<Rightarrow> Down | Down \<Rightarrow> Up)"

text \<open>
  The start of a leg: the scan of \<open>closes[current_idx : current_idx + 10]\<close> for the
  lowest close (Up) or the highest close (Down); the comparison is strict, so the first
  extremum wins.
\<close>

definition find_start :: "real list \<Rightarrow> nat \<Rightarrow> direction \<Rightarrow> nat \<times> real" where
  "find_start closes current_idx wt =
     fold (\<lambda>i (best_idx, best).
             if (case wt of Up \<Rightarrow> closes ! i < best | Down \<Rightarrow> best < closes ! i)
             then (i, closes ! i) else (best_idx, best))
       [current_idx ..< min (current_idx + 10) (length closes)]
       (current_idx, closes ! current_idx)"

text \<open>
  The test inside the search for the end of a leg: the price has moved far enough, the
  guard \<open>i < len(data) - 3\<close> holds, and the close is an extremum of
  \<open>closes[max(0, i - 3) : i + 1]\<close> and of \<open>closes[i + 1 : min(len(data), i + 4)]\<close>.
\<close>

definition end_test :: "real list \<Rightarrow> direction \<Rightarrow> real \<Rightarrow> nat \<Rightarrow> bool" where
  "end_test closes wt sp i =
     (let cp = closes ! i in
      case wt of
        Up \<Rightarrow>
          np_ge (pct_change cp sp) 10 \<and> i + 3 < length closes
          \<and> py_max (slice closes (i - 3) (i + 1)) \<le> cp
          \<and> py_max (slice closes (i + 1) (min (length closes) (i + 4))) \<le> cp
      | Down \<Rightarrow>
          np_le (pct_change cp sp) (- 5) \<and> i + 3 < length closes
          \<and> cp \<le> py_min (slice closes (i - 3) (i + 1))
          \<and> cp \<le> py_min (slice closes (i + 1) (min (length closes) (i + 4))))"

text \<open>
  The end of a leg: the first index of \<open>range(start_idx + 5, min(start_idx + 30,
  len(data)))\<close> that passes the test, else \<open>min(start_idx + 29, len(data) - 1)\<close>.
\<close>

definition find_end :: "real list \<Rightarrow> direction \<Rightarrow> nat \<Rightarrow> real \<Rightarrow> nat \<times> real" where
  "find_end closes wt start_idx sp =
     (case find (end_test closes wt sp)
             [start_idx + 5 ..< min (start_idx + 30) (length closes)] of
        Some i \<Rightarrow> (i, closes ! i)
      | None \<Rightarrow>
          (let end_idx = min (start_idx + 29) (length closes - 1)
           in (end_idx, closes ! end_idx)))"

text \<open>
  The support of an Up leg. The source computes \<open>idx = start_idx + i\<close> and then
  reads \<open>data.iloc[i]\<close> for the open, the close and the low, and \<open>volumes[i]\<close>
  (a bar of the leg) for the volume; the model reads the same bars.
\<close>

definition wave_support :: "bar list \<Rightarrow> nat \<Rightarrow> nat \<Rightarrow> real option" where
  "wave_support data start_idx end_idx =
     (let wave_data = slice data start_idx (end_idx + 1);
          volumes = map b_volume wave_data;
          avg_volume = (if 0 < length volumes then np_mean volumes else 0)
      in fold (\<lambda>i support.
                 if b_open (data ! i) < b_close (data ! i) \<and> avg_volume * 1.2 < volumes ! i
                 then (let current_low = b_low (data ! i) in
                       case support of
                         None \<Rightarrow> Some current_low
                       | Some s \<Rightarrow> if current_low < s then Some current_low else Some s)
                 else support)
           [0 ..< length wave_data] None)"

text \<open>
  \<open>if support_level:\<close> is false for \<open>None\<close> and for \<open>0.0\<close>.
\<close>

definition truthy :: "real option \<Rightarrow> bool" where
  "truthy v = (case v of None \<Rightarrow> False | Some x \<Rightarrow> x \<noteq> 0)"

text \<open>
  One pass of the loop body: the leg appended to \<open>waves\<close>, the value appended to
  \<open>support_levels\<close> (if any) and \<open>end_idx\<close>.
\<close>

definition next_wave :: "bar list \<Rightarrow> nat \<Rightarrow> direction \<Rightarrow> wave \<times> real option \<times> nat" where
  "next_wave data current_idx wt =
     (let closes = map b_close data;
          (start_idx, sp) = find_start closes current_idx wt;
          (end_idx, ep) = find_end closes wt start_idx sp;
          support = (if wt = Up then wave_support data start_idx end_idx else None);
          recorded = (if truthy support then support else None)
      in (\<lparr>wave_type = wt,
           start_date = b_date (data ! start_idx),
           end_date = b_date (data ! end_idx),
           start_price = sp,
           end_price = ep,
           change_pct = pct_change ep sp,
           duration = int end_idx - int start_idx + 1,
           support_level = recorded\<rparr>,
          recorded, end_idx))"

function segment_loop ::
  "bar list \<Rightarrow> nat \<Rightarrow> direction \<Rightarrow> wave list \<Rightarrow> real list \<Rightarrow> wave list \<times> real list" where
  "segment_loop data current_idx wt ws sls =
     (if current_idx + 10 < length data \<and> length ws < 8 then
        (case next_wave data current_idx wt of
           (w, recorded, end_idx) \<Rightarrow>
             segment_loop data (end_idx + 1) (flip wt) (ws @ [w])
               (case recorded of None \<Rightarrow> sls | Some s \<Rightarrow> sls @ [s]))
      else (ws, sls))"
  by pat_completeness auto
termination
  by (relation "measure (\<lambda>(data, current_idx, wt, ws, sls). 8 - length ws)") auto

declare segment_loop.simps [simp del]

definition segment :: "bar list \<Rightarrow> wave list \<times> real list" where
  "segment data = segment_loop data 0 Up [] []"

datatype reason =
    DataFetchFailed | InsufficientLength | TooFewUpWaves nat | HighsNotRising
  | InsufficientSupport | LowQuality int | RecognitionFailed

record pattern_result =
  wave_count :: nat
  r_waves :: "wave list"
  r_support_levels :: "real list"
  r_wave_highs :: "real list"
  r_wave3_high :: real
  strongest_support :: "real option"
  total_rise_pct :: real
  r_total_days :: int
  r_quality_score :: int

datatype three_wave_result = NotConfirmed reason | Confirmed pattern_result

fun confirmed :: "three_wave_result \<Rightarrow> bool" where
  "confirmed (Confirmed r) = True"
| "confirmed (NotConfirmed why) = False"

definition in_band :: "wave \<Rightarrow> bool" where
  "in_band w = (np_ge (change_pct w) 10 \<and> np_le (change_pct w) 20)"

definition total_days :: "wave list \<Rightarrow> int" where
  "total_days ws = sum_list (map duration ws)"

definition quality_score :: "wave list \<Rightarrow> wave list \<Rightarrow> real list \<Rightarrow> int" where
  "quality_score up_waves ws sls =
     (let score = fold (\<lambda>w sc. if in_band w then sc + 10 else sc) (take 3 up_waves) 0;
          score = (if total_days ws \<le> 90 then score + 20 else score);
          score = (if 2 \<le> length sls then score + 20 else score)
      in score)"

text \<open>
  The analysis after the loop. The quotient of \<open>total_rise\<close> divides Python floats,
  so a first leg starting at price 0 raises ZeroDivisionError, which the handler of
  \<open>identify_three_waves\<close> turns into a result that is not confirmed.
\<close>

definition analyse :: "params \<Rightarrow> wave list \<Rightarrow> real list \<Rightarrow> three_wave_result" where
  "analyse prm ws sls =
     (let up_waves = filter (\<lambda>w. wave_type w = Up) ws in
      if length up_waves < 3 then NotConfirmed (TooFewUpWaves (length up_waves))
      else
        (let wave_highs = map end_price (take 3 up_waves) in
         if \<not> (wave_highs ! 0 < wave_highs ! 1 \<and> wave_highs ! 1 < wave_highs ! 2)
         then NotConfirmed HighsNotRising
         else if length sls < 2 then NotConfirmed InsufficientSupport
         else
           (let score = quality_score up_waves ws sls in
            if score < min_wave_score prm then NotConfirmed (LowQuality score)
            else if start_price (ws ! 0) = 0 then NotConfirmed RecognitionFailed
            else Confirmed
              \<lparr>wave_count = length ws,
               r_waves = ws,
               r_support_levels = take 3 sls,
               r_wave_highs = wave_highs,
               r_wave3_high = last wave_highs,
               strongest_support = (if sls = [] then None else Some (py_max (take 3 sls))),
               total_rise_pct =
                 (last wave_highs - start_price (ws ! 0)) / start_price (ws ! 0) * 100,
               r_total_days = total_days ws,
               r_quality_score = min 100 score\<rparr>)))"

text \<open>
  \<open>identify_three_waves\<close>, given what \<open>get_price\<close> returned and the start date.
\<close>

definition identify_three_waves :: "params \<Rightarrow> fetch_result \<Rightarrow> int \<Rightarrow> three_wave_result" where
  "identify_three_waves prm fetched start_date_arg =
     (case fetched of
        Raised \<Rightarrow> NotConfirmed RecognitionFailed
      | NoData \<Rightarrow> NotConfirmed DataFetchFailed
      | Data price_data \<Rightarrow>
          (case find (\<lambda>i. start_date_arg \<le> b_date (price_data ! i)) [0 ..< length price_data] of
             None \<Rightarrow> NotConfirmed InsufficientLength
           | Some start_idx \<Rightarrow>
               if int (length price_data) - int start_idx < 30
               then NotConfirmed InsufficientLength
               else (case segment (drop start_idx price_data) of
                       (ws, sls) \<Rightarrow> analyse prm ws sls)))"

section \<open>Consolidation detector\<close>

record consolidation_result =
  is_consolidating :: bool
  in_range_ratio :: real
  volume_ratio :: real
  current_price :: real
  c_support_level :: real
  resistance_level :: real
  price_position :: real

text \<open>The counting loop over \<open>closes\<close>.\<close>

definition count_in_range :: "real \<Rightarrow> real \<Rightarrow> real list \<Rightarrow> nat" where
  "count_in_range strongest w3 closes =
     fold (\<lambda>price n. if strongest * 0.98 \<le> price \<and> price \<le> w3 * 1.02 then n + 1 else n)
       closes 0"

definition window_volume_ratio :: "real list \<Rightarrow> real" where
  "window_volume_ratio volumes =
     (if 20 \<le> length volumes then
        (let recent_vol = np_mean (drop (length volumes - 10) volumes);
             early_vol = np_mean (take 10 volumes)
         in if 0 < early_vol then recent_vol / early_vol else 1)
      else 1)"

definition check_consolidation ::
  "fetch_result \<Rightarrow> real \<Rightarrow> real list \<Rightarrow> consolidation_result option" where
  "check_consolidation fetched wave3_high support_levels =
     (case fetched of
        Raised \<Rightarrow> None
      | NoData \<Rightarrow> None
      | Data price_data \<Rightarrow>
          if length price_data < 20 then None
          else if support_levels = [] then None
          else
            (let closes = map b_close price_data;
                 strongest_support = py_max support_levels;
                 in_range_count = count_in_range strongest_support wave3_high closes;
                 ratio = real in_range_count / real (length closes);
                 vr = window_volume_ratio (map b_volume price_data);
                 cur = last closes;
                 pos = (if strongest_support < wave3_high
                        then (cur - strongest_support) / (wave3_high - strongest_support) * 100
                        else 50)
             in Some \<lparr>is_consolidating = (0.7 \<le> ratio \<and> vr < 1.5),
                      in_range_ratio = ratio,
                      volume_ratio = vr,
                      current_price = cur,
                      c_support_level = strongest_support,
                      resistance_level = wave3_high,
                      price_position = pos\<rparr>))"

section \<open>A-kill detector and signal generation\<close>

record a_kill_result =
  has_A_kill :: bool
  ak_quality_score :: "int option"
  A_bottom :: "real option"
  A_bottom_date :: "int option"

definition only_flag :: a_kill_result where
  "only_flag =
     \<lparr>has_A_kill = True, ak_quality_score = None, A_bottom = None, A_bottom_date = None\<rparr>"

text \<open>\<open>np.argmin\<close>: the first index of the least element.\<close>

definition argmin :: "real list \<Rightarrow> nat" where
  "argmin xs =
     fst (fold (\<lambda>i (best_idx, best). if xs ! i < best then (i, xs ! i) else (best_idx, best))
            [0 ..< length xs] (0, xs ! 0))"

text \<open>
  \<open>identify_A_kill\<close>: every failure (a raising fetch, \<open>len(None)\<close>) ends in the bare
  \<open>except\<close>, which returns the dictionary with the flag only.
\<close>

definition identify_A_kill :: "fetch_result \<Rightarrow> a_kill_result" where
  "identify_A_kill fetched =
     (case fetched of
        Raised \<Rightarrow> only_flag
      | NoData \<Rightarrow> only_flag
      | Data price_data \<Rightarrow>
          if length price_data < 60 then only_flag
          else
            (let close_prices = map b_close price_data;
                 high_prices = map b_high price_data;
                 max_price = py_max high_prices;
                 min_price = py_min close_prices;
                 total_change = pct_change max_price min_price
             in if np_gt total_change 30 then
                  \<lparr>has_A_kill = True, ak_quality_score = Some 60, A_bottom = Some min_price,
                   A_bottom_date = Some (b_date (price_data ! argmin close_prices))\<rparr>
                else only_flag))"

section \<open>Signals and the composite scorer\<close>

record signal =
  stock_code :: string
  stock_name :: string
  signal_strength :: string
  s_position_ratio :: real
  entry_price :: real
  stop_loss :: real
  take_profit :: real
  shareholder_change :: "real option"
  s_volume_ratio :: real
  s_price_change :: real
  turnover_ratio :: real
  s_buy_time :: int

text \<open>What the collaborators return to one call of \<open>generate_trade_signal\<close>.\<close>

record signal_env =
  akill_fetch :: fetch_result
  waves_fetch :: "int \<Rightarrow> fetch_result"
  consolidation_fetch :: fetch_result
  today_fetch :: fetch_result
  five_day_fetch :: fetch_result
  holder_change :: "real option"

text \<open>
  \<open>generate_trade_signal\<close>. Every exception inside it is caught by its own handler,
  which logs and returns \<open>None\<close>: the missing key \<open>A_bottom_date\<close>, a raising fetch,
  \<open>len(None)\<close>.
\<close>

definition generate_trade_signal ::
  "params \<Rightarrow> signal_env \<Rightarrow> string \<Rightarrow> string \<Rightarrow> real \<Rightarrow> real \<Rightarrow> int \<Rightarrow> signal option" where
  "generate_trade_signal prm env code name price_change turnover current_date =
     (let a_kill = identify_A_kill (akill_fetch env) in
      if \<not> has_A_kill a_kill then None
      else case A_bottom_date a_kill of
        None \<Rightarrow> None
      | Some bottom \<Rightarrow>
      (case identify_three_waves prm (waves_fetch env (current_date - bottom + 100)) bottom of
        NotConfirmed why \<Rightarrow> None
      | Confirmed three_waves \<Rightarrow>
      (case check_consolidation (consolidation_fetch env) (r_wave3_high three_waves)
              (r_support_levels three_waves) of
        None \<Rightarrow> None
      | Some consolidation \<Rightarrow>
      if \<not> is_consolidating consolidation then None
      else case today_fetch env of
        Raised \<Rightarrow> None
      | NoData \<Rightarrow> None
      | Data today_data \<Rightarrow>
      if today_data = [] then None
      else case five_day_fetch env of
        Raised \<Rightarrow> None
      | NoData \<Rightarrow> None
      | Data five \<Rightarrow>
      (let today = today_data ! 0;
           today_close = b_close today;
           today_high = b_high today;
           resistance = r_wave3_high three_waves;
           breakthrough = (resistance < today_close);
           early_break = (resistance * 1.01 < today_high \<and> b_open today * 1.02 < today_close);
           avg_volume_5 = (if 5 \<le> length five then np_mean (map b_volume five)
                           else b_volume today);
           vr = (if 0 < avg_volume_5 then b_volume today / avg_volume_5 else 1);
           (strength, ratio) =
             (if breakthrough \<and> early_break \<and> 1.5 < vr then (''strong'', position_ratio prm)
              else if breakthrough \<and> 1.2 < vr then (''medium'', position_ratio prm * 0.6)
              else if resistance < today_high \<and> 1.0 < vr then (''weak'', position_ratio prm * 0.3)
              else (''weak'', 0))
       in if ratio \<le> 0 then None
          else Some
            \<lparr>stock_code = code, stock_name = name, signal_strength = strength,
             s_position_ratio = ratio, entry_price = today_close,
             stop_loss = c_support_level consolidation * (1 - immediate_stop_loss prm),
             take_profit = today_close * (1 + immediate_take_profit prm),
             shareholder_change = holder_change env, s_volume_ratio = vr,
             s_price_change = price_change, turnover_ratio = turnover,
             s_buy_time = current_date\<rparr>))))"

text \<open>The dictionary lookup \<open>{'strong': 100, 'medium': 60, 'weak': 30}.get(k, 0)\<close>.\<close>

definition strength_score :: "string \<Rightarrow> real" where
  "strength_score k =
     (if k = ''strong'' then 100 else if k = ''medium'' then 60
      else if k = ''weak'' then 30 else 0)"

definition calculate_composite_score :: "signal \<Rightarrow> real" where
  "calculate_composite_score sig =
     (let shareholder_bonus =
            (case shareholder_change sig of
               None \<Rightarrow> 0
             | Some change \<Rightarrow> max (- 50) (min (change * (- 10)) 50))
      in strength_score (signal_strength sig) + shareholder_bonus)"

text \<open>The scorer as the specification words it: a clamp of the factor times \<open>-10\<close>.\<close>

definition spec_clamp :: "real \<Rightarrow> real \<Rightarrow> real \<Rightarrow> real" where
  "spec_clamp x lo hi = (if x < lo then lo else if hi < x then hi else x)"

definition spec_auxiliary_bonus :: "real option \<Rightarrow> real" where
  "spec_auxiliary_bonus f = (case f of None \<Rightarrow> 0 | Some a \<Rightarrow> spec_clamp (a * (- 10)) (- 50) 50)"

section \<open>Position lifecycle\<close>

text \<open>
  \<open>g.positions\<close> is a dictionary: it is modelled by the list of its items in iteration
  order, with one entry for each key. Each exit check loops over a snapshot of the items
  and its body writes only to the entry it visits, so the loop is a pass over the
  entries. \<open>submitted\<close> records the calls \<open>order_target(stock_code, 0)\<close> that went
  through. A quote that cannot be read and a zero \<open>buy_price\<close> raise inside the body,
  where the handler logs the error and the loop goes on.
\<close>

datatype sell_reason =
    ImmediateStop real | ImmediateTake real | TailTake real
  | TimeTake int real | TimeStop int real

record position =
  buy_price :: real
  buy_time :: int
  quantity :: real
  selling :: bool
  p_stop_loss :: real
  p_take_profit :: real
  sell_reason :: "sell_reason option"
  sell_time :: "int option"

record trading_context =
  cur_hour :: nat
  cur_minute :: nat
  cur_date :: int
  portfolio :: "string \<rightharpoonup> real"
  last_price :: "string \<rightharpoonup> real"
  order_raises :: "string \<Rightarrow> bool"

record gstate =
  g_positions :: "(string \<times> position) list"
  trading_enabled :: bool
  submitted :: "string list"

text \<open>
  The three assignments after \<open>order_target\<close>: the flag, the reason and the time.
\<close>

definition mark_selling :: "trading_context \<Rightarrow> sell_reason \<Rightarrow> position \<Rightarrow> position" where
  "mark_selling ctx r pos =
     pos\<lparr>selling := True, sell_reason := Some r, sell_time := Some (cur_date ctx)\<rparr>"

text \<open>
  The body of the loop of \<open>check_immediate_stops\<close> for one entry: the entry after
  the pass, and whether a close order was submitted.
\<close>

definition immediate_entry ::
  "params \<Rightarrow> trading_context \<Rightarrow> string \<times> position \<Rightarrow> (string \<times> position) \<times> bool" where
  "immediate_entry prm ctx e =
     (let code = fst e; pos = snd e in
      if selling pos then (e, False)
      else case portfolio ctx code of
        None \<Rightarrow> (e, False)
      | Some current_amount \<Rightarrow>
          if current_amount \<le> 0 then (e, False)
          else case last_price ctx code of
            None \<Rightarrow> (e, False)
          | Some cp \<Rightarrow>
              if buy_price pos = 0 then (e, False)
              else
                (let profit_pct = (cp - buy_price pos) / buy_price pos * 100 in
                 if profit_pct \<le> - immediate_stop_loss prm * 100 then
                   (if order_raises ctx code then (e, False)
                    else ((code, mark_selling ctx (ImmediateStop profit_pct) pos), True))
                 else if immediate_take_profit prm * 100 \<le> profit_pct then
                   (if order_raises ctx code then (e, False)
                    else ((code, mark_selling ctx (ImmediateTake profit_pct) pos), True))
                 else (e, False)))"

text \<open>
  The body of the loop of \<open>check_tail_position\<close> for one entry.
\<close>

definition tail_entry ::
  "params \<Rightarrow> trading_context \<Rightarrow> string \<times> position \<Rightarrow> (string \<times> position) \<times> bool" where
  "tail_entry prm ctx e =
     (let code = fst e; pos = snd e in
      if selling pos then (e, False)
      else case portfolio ctx code of
        None \<Rightarrow> (e, False)
      | Some current_amount \<Rightarrow>
          if current_amount \<le> 0 then (e, False)
          else case last_price ctx code of
            None \<Rightarrow> (e, False)
          | Some cp \<Rightarrow>
              if buy_price pos = 0 then (e, False)
              else
                (let profit_pct = (cp - buy_price pos) / buy_price pos * 100;
                     hold_days = cur_date ctx - buy_time pos;
                     decision =
                       (if tail_take_profit prm * 100 \<le> profit_pct
                        then Some (TailTake profit_pct)
                        else if time_stop_days prm \<le> hold_days
                        then (if 0 < profit_pct then Some (TimeTake hold_days profit_pct)
                              else Some (TimeStop hold_days profit_pct))
                        else None)
                 in case decision of
                      None \<Rightarrow> (e, False)
                    | Some reason \<Rightarrow>
                        if order_raises ctx code then (e, False)
                        else ((code, mark_selling ctx reason pos), True)))"

fun for_positions ::
  "(string \<times> position \<Rightarrow> (string \<times> position) \<times> bool) \<Rightarrow> (string \<times> position) list
     \<Rightarrow> (string \<times> position) list \<times> string list" where
  "for_positions body [] = ([], [])"
| "for_positions body (e # es) =
     (let (e', ordered) = body e; (es', os) = for_positions body es
      in (e' # es', (if ordered then [fst e] else []) @ os))"

definition held_amount :: "trading_context \<Rightarrow> string \<Rightarrow> real" where
  "held_amount ctx code = (case portfolio ctx code of None \<Rightarrow> 0 | Some a \<Rightarrow> a)"

definition cleanup_sold_positions :: "trading_context \<Rightarrow> gstate \<Rightarrow> gstate" where
  "cleanup_sold_positions ctx st =
     (let stocks_to_remove =
            map fst (filter (\<lambda>(code, pos). selling pos \<and> held_amount ctx code \<le> 0)
                       (g_positions st))
      in st\<lparr>g_positions := filter (\<lambda>(code, pos). code \<notin> set stocks_to_remove)
                               (g_positions st)\<rparr>)"

definition check_immediate_stops :: "params \<Rightarrow> trading_context \<Rightarrow> gstate \<Rightarrow> gstate" where
  "check_immediate_stops prm ctx st =
     (if g_positions st = [] then st
      else if cur_hour ctx = 9 \<and> cur_minute ctx < 30 then st
      else if cur_hour ctx = 14 \<and> 55 \<le> cur_minute ctx then st
      else
        (let (ps, os) = for_positions (immediate_entry prm ctx) (g_positions st)
         in st\<lparr>g_positions := ps, submitted := submitted st @ os\<rparr>))"

definition check_tail_position :: "params \<Rightarrow> trading_context \<Rightarrow> gstate \<Rightarrow> gstate" where
  "check_tail_position prm ctx st =
     (if g_positions st = [] then st
      else
        (let (ps, os) = for_positions (tail_entry prm ctx) (g_positions st)
         in cleanup_sold_positions ctx (st\<lparr>g_positions := ps, submitted := submitted st @ os\<rparr>)))"

definition handle_data :: "params \<Rightarrow> trading_context \<Rightarrow> gstate \<Rightarrow> gstate" where
  "handle_data prm ctx st =
     (if \<not> trading_enabled st then st
      else if cur_hour ctx = 9 \<and> cur_minute ctx < 30 then st
      else if cur_hour ctx = 14 \<and> 55 \<le> cur_minute ctx then st
      else cleanup_sold_positions ctx (check_immediate_stops prm ctx st))"

record open_order =
  o_id :: nat
  o_status :: string

text \<open>
  \<open>morning_cleanup\<close>, given the open orders: the state after it and the orders it
  cancelled.
\<close>

definition morning_cleanup ::
  "(string \<times> open_order list) list \<Rightarrow> gstate \<Rightarrow> gstate \<times> nat list" where
  "morning_cleanup orders st =
     (let canceled = map o_id (filter (\<lambda>ord. o_status ord \<in> set [''open'', ''pending''])
                                  (concat (map snd orders)));
          stocks_to_remove = map fst (filter (\<lambda>(code, pos). selling pos) (g_positions st))
      in (st\<lparr>g_positions := filter (\<lambda>(code, pos). code \<notin> set stocks_to_remove)
                                (g_positions st)\<rparr>,
          canceled))"

datatype exit_check = Immediate trading_context | Minute trading_context | Tail trading_context

fun run_check :: "params \<Rightarrow> exit_check \<Rightarrow> gstate \<Rightarrow> gstate" where
  "run_check prm (Immediate ctx) st = check_immediate_stops prm ctx st"
| "run_check prm (Minute ctx) st = handle_data prm ctx st"
| "run_check prm (Tail ctx) st = check_tail_position prm ctx st"

fun run_checks :: "params \<Rightarrow> exit_check list \<Rightarrow> gstate \<Rightarrow> gstate" where
  "run_checks prm [] st = st"
| "run_checks prm (c # cs) st = run_checks prm cs (run_check prm c st)"

text \<open>
  Notions used to state and prove the properties of the exit checks: every entry of an
  instrument is flagged; the number of close orders submitted for an instrument; the
  body of either loop.
\<close>

definition pending :: "string \<Rightarrow> (string \<times> position) list \<Rightarrow> bool" where
  "pending c ps = list_all (\<lambda>e. fst e \<noteq> c \<or> selling (snd e)) ps"

definition orders_for :: "string \<Rightarrow> gstate \<Rightarrow> nat" where
  "orders_for c st = count_list (submitted st) c"

definition exit_body ::
  "params \<Rightarrow> trading_context \<Rightarrow> bool \<Rightarrow> string \<times> position \<Rightarrow> (string \<times> position) \<times> bool"
  where
  "exit_body prm ctx tail = (if tail then tail_entry prm ctx else immediate_entry prm ctx)"

text \<open>The loop of either check, before the clean-up.\<close>

definition exit_loop :: "params \<Rightarrow> trading_context \<Rightarrow> bool \<Rightarrow> gstate \<Rightarrow> gstate" where
  "exit_loop prm ctx t st =
     (let (ps, os) = for_positions (exit_body prm ctx t) (g_positions st)
      in st\<lparr>g_positions := ps, submitted := submitted st @ os\<rparr>)"

section \<open>The segmenter as the specification words it\<close>

text \<open>
  The end of an Up leg in the words of the specification: the first bar, at least 5 bars
  after the start and within 30 bars, that has risen 10 percent and is no lower than the
  closes of the 3 bars before it and of the 3 bars after it, the windows being cut short
  at the edges of the series; else day 29 or the end of the series.
\<close>

definition spec_up_test :: "real list \<Rightarrow> real \<Rightarrow> nat \<Rightarrow> bool" where
  "spec_up_test closes sp i =
     (np_ge (pct_change (closes ! i) sp) 10
      \<and> list_all (\<lambda>x. x \<le> closes ! i) (slice closes (i - 3) i)
      \<and> list_all (\<lambda>x. x \<le> closes ! i) (slice closes (i + 1) (min (length closes) (i + 4))))"

definition spec_up_end :: "real list \<Rightarrow> nat \<Rightarrow> real \<Rightarrow> nat" where
  "spec_up_end closes start_idx sp =
     (case find (spec_up_test closes sp) [start_idx + 5 ..< min (start_idx + 30) (length closes)] of
        Some i \<Rightarrow> i
      | None \<Rightarrow> min (start_idx + 29) (length closes - 1))"

text \<open>
  The support price of an Up leg in the words of the specification: the lowest low among
  the bars of the leg that close above their open on a volume above 1.2 times the mean
  volume of the leg.
\<close>

definition spec_support :: "bar list \<Rightarrow> nat \<Rightarrow> nat \<Rightarrow> real option" where
  "spec_support data start_idx end_idx =
     (let leg = slice data start_idx (end_idx + 1);
          avg_volume = np_mean (map b_volume leg);
          qualifying = filter (\<lambda>b. b_open b < b_close b \<and> avg_volume * 1.2 < b_volume b) leg
      in if qualifying = [] then None else Some (py_min (map b_low qualifying)))"

text \<open>
  The condition the code puts on the end of an Up leg that starts at bar \<open>s\<close> with price
  \<open>sp\<close>: the three bars after \<open>i\<close> must exist.
\<close>

definition up_end_candidate :: "real list \<Rightarrow> nat \<Rightarrow> real \<Rightarrow> nat \<Rightarrow> bool" where
  "up_end_candidate closes s sp i =
     (s + 5 \<le> i \<and> i < s + 30 \<and> i + 3 < length closes
      \<and> np_ge (pct_change (closes ! i) sp) 10
      \<and> closes ! (i - 3) \<le> closes ! i \<and> closes ! (i - 2) \<le> closes ! i
      \<and> closes ! (i - 1) \<le> closes ! i
      \<and> closes ! (i + 1) \<le> closes ! i \<and> closes ! (i + 2) \<le> closes ! i
      \<and> closes ! (i + 3) \<le> closes ! i)"

section \<open>Sample inputs\<close>

text \<open>
  A series of 45 bars with three rallies of 12, 11.3 and 10.7 percent, each of 7 bars,
  and one bar of high volume in each rally.
\<close>

definition demo_closes :: "real list" where
  "demo_closes =
     [100, 102, 104, 106, 108, 110, 112,
      111, 110, 109, 108, 107, 106, 105,
      106, 108, 110, 112, 114, 116, 118,
      117, 116, 115, 114, 113, 112, 111,
      112, 114, 116, 118, 120, 122, 124,
      123, 123, 123, 123, 123, 123, 123, 123, 123, 123]"

definition demo_bars :: "bar list" where
  "demo_bars =
     map (\<lambda>i. \<lparr>b_date = int i, b_open = demo_closes ! i - 1, b_close = demo_closes ! i,
               b_high = demo_closes ! i + 1, b_low = demo_closes ! i - 2,
               b_volume = (if i mod 14 = 3 then 300 else 100)\<rparr>) [0 ..< 45]"

text \<open>A flat series of 30 bars with one jump on the last bar but one.\<close>

definition edge_closes :: "real list" where
  "edge_closes = replicate 28 100 @ [120, 100]"

text \<open>A position bought at 10 and two moments of the session, the quote at 8.\<close>

definition demo_position :: position where
  "demo_position =
     \<lparr>buy_price = 10, buy_time = 0, quantity = 100, selling = False, p_stop_loss = 9.7,
      p_take_profit = 10.8, sell_reason = None, sell_time = None\<rparr>"

definition demo_context :: "nat \<Rightarrow> nat \<Rightarrow> trading_context" where
  "demo_context h m =
     \<lparr>cur_hour = h, cur_minute = m, cur_date = 1,
      portfolio = [''000001.XSHE'' \<mapsto> 100], last_price = [''000001.XSHE'' \<mapsto> 8],
      order_raises = (\<lambda>code. False)\<rparr>"

definition demo_state :: "bool \<Rightarrow> gstate" where
  "demo_state flagged =
     \<lparr>g_positions = [(''000001.XSHE'', demo_position\<lparr>selling := flagged\<rparr>)],
      trading_enabled = True, submitted = []\<rparr>"

text \<open>The answers of the collaborators to one call of the signal generator.\<close>

definition demo_env :: "fetch_result \<Rightarrow> signal_env" where
  "demo_env f =
     \<lparr>akill_fetch = f, waves_fetch = (\<lambda>n. Data demo_bars),
      consolidation_fetch = Data demo_bars, today_fetch = Data [last demo_bars],
      five_day_fetch = Data (drop 40 demo_bars), holder_change = None\<rparr>"

section \<open>Properties of the wave segmenter\<close>

subsection \<open>Bounds on the start and the end of a leg\<close>

lemma fold_best_index:
  "fst (fold (\<lambda>i (best_idx, best). if c i best then (i, v i) else (best_idx, best)) xs (b, x))
     \<in> insert b (set xs)"
  by (induction xs arbitrary: b x) (auto split: if_splits)

lemma find_start_range:
  assumes "current_idx + 10 < length closes"
  shows "current_idx \<le> fst (find_start closes current_idx wt)"
    and "fst (find_start closes current_idx wt) < current_idx + 10"
proof -
  have "fst (find_start closes current_idx wt)
          \<in> insert current_idx (set [current_idx ..< min (current_idx + 10) (length closes)])"
    unfolding find_start_def by (rule fold_best_index)
  with assms show "current_idx \<le> fst (find_start closes current_idx wt)"
    and "fst (find_start closes current_idx wt) < current_idx + 10"
    by auto
qed

lemma find_Some_set: "find P xs = Some x \<Longrightarrow> x \<in> set xs"
  by (induction xs) (auto split: if_splits)

lemma segment_loop_stop:
  "\<not> (current_idx + 10 < length data \<and> length ws < 8)
     \<Longrightarrow> segment_loop data current_idx wt ws sls = (ws, sls)"
  by (subst segment_loop.simps) auto

lemma segment_loop_step:
  "current_idx + 10 < length data \<and> length ws < 8
     \<Longrightarrow> next_wave data current_idx wt = (w, recorded, end_idx)
     \<Longrightarrow> segment_loop data current_idx wt ws sls
           = segment_loop data (end_idx + 1) (flip wt) (ws @ [w])
               (case recorded of None \<Rightarrow> sls | Some s \<Rightarrow> sls @ [s])"
  by (subst segment_loop.simps) simp

lemma find_end_range:
  assumes "start_idx < length closes"
  shows "start_idx \<le> fst (find_end closes wt start_idx sp)
         \<and> fst (find_end closes wt start_idx sp) \<le> start_idx + 29
         \<and> fst (find_end closes wt start_idx sp) < length closes"
proof (cases "find (end_test closes wt sp) [start_idx + 5 ..< min (start_idx + 30) (length closes)]")
  case None
  with assms show ?thesis by (simp add: find_end_def Let_def) arith
next
  case (Some i)
  then have "i \<in> set [start_idx + 5 ..< min (start_idx + 30) (length closes)]"
    by (rule find_Some_set)
  with Some show ?thesis by (simp add: find_end_def)
qed

lemma next_wave_duration:
  assumes "current_idx + 10 < length data"
  shows "1 \<le> duration (fst (next_wave data current_idx wt))"
    and "duration (fst (next_wave data current_idx wt)) \<le> 30"
proof -
  let ?closes = "map b_close data"
  obtain s sp where st: "find_start ?closes current_idx wt = (s, sp)"
    by (cases "find_start ?closes current_idx wt")
  obtain e ep where en: "find_end ?closes wt s sp = (e, ep)"
    by (cases "find_end ?closes wt s sp")
  from assms find_start_range [of current_idx ?closes wt] st
  have "s < length ?closes" by simp
  from find_end_range [OF this, of wt sp] en have "s \<le> e" "e \<le> s + 29" by simp_all
  then show "1 \<le> duration (fst (next_wave data current_idx wt))"
    and "duration (fst (next_wave data current_idx wt)) \<le> 30"
    by (simp_all add: next_wave_def st en Let_def)
qed

subsection \<open>The loop\<close>

lemma segment_loop_length:
  "length ws \<le> 8 \<Longrightarrow> length (fst (segment_loop data current_idx wt ws sls)) \<le> 8"
proof (induction data current_idx wt ws sls rule: segment_loop.induct)
  case (1 data current_idx wt ws sls)
  show ?case
  proof (cases "current_idx + 10 < length data \<and> length ws < 8")
    case True
    obtain w recorded end_idx where nw: "next_wave data current_idx wt = (w, recorded, end_idx)"
      by (cases "next_wave data current_idx wt")
    from True have "length (ws @ [w]) \<le> 8" by simp
    from "1.IH" [OF True nw [symmetric] refl this] show ?thesis
      by (simp add: segment_loop_step [OF True nw])
  next
    case False
    with "1.prems" show ?thesis
      by (simp add: segment_loop_stop)
  qed
qed

lemma segment_loop_waves:
  assumes "\<And>cur d. cur + 10 < length data \<Longrightarrow> P (fst (next_wave data cur d))"
  shows "list_all P ws \<Longrightarrow> list_all P (fst (segment_loop data current_idx wt ws sls))"
  using assms
proof (induction data current_idx wt ws sls rule: segment_loop.induct)
  case (1 data current_idx wt ws sls)
  show ?case
  proof (cases "current_idx + 10 < length data \<and> length ws < 8")
    case True
    obtain w recorded end_idx where nw: "next_wave data current_idx wt = (w, recorded, end_idx)"
      by (cases "next_wave data current_idx wt")
    from True "1.prems"(2) [of current_idx wt] nw have "P w" by simp
    with "1.prems"(1) have "list_all P (ws @ [w])" by simp
    from "1.IH" [OF True nw [symmetric] refl this "1.prems"(2)] show ?thesis
      by (simp add: segment_loop_step [OF True nw])
  next
    case False
    with "1.prems" show ?thesis
      by (simp add: segment_loop_stop)
  qed
qed

text \<open>
  C8. One run of the segmenter over any series yields at most 8 legs, and the duration
  of every leg (end index minus start index plus one) is at least 1 and at most 30.
\<close>

theorem segment_bounds:
  "length (fst (segment data)) \<le> 8
   \<and> (\<forall>w \<in> set (fst (segment data)). 1 \<le> duration w \<and> duration w \<le> 30)"
proof -
  have "length (fst (segment data)) \<le> 8"
    unfolding segment_def by (rule segment_loop_length) simp
  moreover have "list_all (\<lambda>w. 1 \<le> duration w \<and> duration w \<le> 30) (fst (segment data))"
    unfolding segment_def
    by (rule segment_loop_waves) (simp_all add: next_wave_duration)
  ultimately show ?thesis by (simp add: list_all_iff)
qed

theorem segment_bounds_witness:
  "length (fst (segment demo_bars)) = 5
   \<and> list_all (\<lambda>w. duration w = 7) (fst (segment demo_bars))"
  using segment_bounds [of demo_bars]
  by code_simp

subsection \<open>The end of an Up leg\<close>

lemma slice_length: "b \<le> length xs \<Longrightarrow> length (slice xs a b) = b - a"
  by (simp add: slice_def)

lemma slice_set: "b \<le> length xs \<Longrightarrow> set (slice xs a b) = {xs ! k | k. a \<le> k \<and> k < b}"
proof (rule set_eqI)
  fix x assume b: "b \<le> length xs"
  show "x \<in> set (slice xs a b) \<longleftrightarrow> x \<in> {xs ! k | k. a \<le> k \<and> k < b}"
  proof
    assume "x \<in> set (slice xs a b)"
    then obtain j where j: "j < length (slice xs a b)" "x = slice xs a b ! j"
      by (auto simp: in_set_conv_nth)
    with b have "j < b - a" "x = xs ! (a + j)" by (simp_all add: slice_def)
    then have "a \<le> a + j \<and> a + j < b \<and> x = xs ! (a + j)" by simp
    then show "x \<in> {xs ! k | k. a \<le> k \<and> k < b}" by blast
  next
    assume "x \<in> {xs ! k | k. a \<le> k \<and> k < b}"
    then obtain k where k: "a \<le> k" "k < b" "x = xs ! k" by blast
    with b have "k - a < length (slice xs a b)" "slice xs a b ! (k - a) = x"
      by (simp_all add: slice_def)
    then show "x \<in> set (slice xs a b)" by (metis nth_mem)
  qed
qed

lemma fold_max_le: "fold max xs (x::real) \<le> c \<longleftrightarrow> x \<le> c \<and> (\<forall>y \<in> set xs. y \<le> c)"
  by (induction xs arbitrary: x) auto

lemma py_max_le: "xs \<noteq> [] \<Longrightarrow> py_max xs \<le> c \<longleftrightarrow> (\<forall>y \<in> set xs. y \<le> c)"
  by (cases xs) (auto simp: fold_max_le)

lemma slice_before_nonempty: "i < length xs \<Longrightarrow> slice xs (i - 3) (i + 1) \<noteq> []"
  by (auto simp: slice_def)

lemma slice_after_nonempty:
  "i + 3 < length xs \<Longrightarrow> slice xs (i + 1) (min (length xs) (i + 4)) \<noteq> []"
  by (simp add: slice_def)

lemma window_before:
  fixes i :: nat
  assumes "3 \<le> i"
  shows "(\<forall>k. i - 3 \<le> k \<and> k < i + 1 \<longrightarrow> P k) \<longleftrightarrow> P (i - 3) \<and> P (i - 2) \<and> P (i - 1) \<and> P i"
proof
  assume "\<forall>k. i - 3 \<le> k \<and> k < i + 1 \<longrightarrow> P k"
  then have h: "\<And>k. i - 3 \<le> k \<Longrightarrow> k < i + 1 \<Longrightarrow> P k" by blast
  have "P (i - 3)" "P (i - 2)" "P (i - 1)" "P i" by (rule h; arith)+
  then show "P (i - 3) \<and> P (i - 2) \<and> P (i - 1) \<and> P i" by blast
next
  assume r: "P (i - 3) \<and> P (i - 2) \<and> P (i - 1) \<and> P i"
  show "\<forall>k. i - 3 \<le> k \<and> k < i + 1 \<longrightarrow> P k"
  proof (intro allI impI)
    fix k assume "i - 3 \<le> k \<and> k < i + 1"
    with assms have "k = i - 3 \<or> k = i - 2 \<or> k = i - 1 \<or> k = i" by arith
    with r show "P k" by auto
  qed
qed

lemma window_after:
  fixes i :: nat
  shows "(\<forall>k. i + 1 \<le> k \<and> k < i + 4 \<longrightarrow> P k) \<longleftrightarrow> P (i + 1) \<and> P (i + 2) \<and> P (i + 3)"
proof
  assume "\<forall>k. i + 1 \<le> k \<and> k < i + 4 \<longrightarrow> P k"
  then show "P (i + 1) \<and> P (i + 2) \<and> P (i + 3)" by simp
next
  assume r: "P (i + 1) \<and> P (i + 2) \<and> P (i + 3)"
  show "\<forall>k. i + 1 \<le> k \<and> k < i + 4 \<longrightarrow> P k"
  proof (intro allI impI)
    fix k :: nat assume "i + 1 \<le> k \<and> k < i + 4"
    then have "k = i + 1 \<or> k = i + 2 \<or> k = i + 3" by arith
    with r show "P k" by auto
  qed
qed

lemma end_test_up:
  assumes "s + 5 \<le> i" and "i < min (s + 30) (length closes)"
  shows "end_test closes Up sp i = up_end_candidate closes s sp i"
proof (cases "i + 3 < length closes")
  case False
  then show ?thesis by (simp add: end_test_def up_end_candidate_def)
next
  case True
  from assms have i3: "3 \<le> i" by simp
  have before: "py_max (slice closes (i - 3) (i + 1)) \<le> closes ! i
      \<longleftrightarrow> closes ! (i - 3) \<le> closes ! i \<and> closes ! (i - 2) \<le> closes ! i
          \<and> closes ! (i - 1) \<le> closes ! i"
  proof -
    from True have le: "i + 1 \<le> length closes" and lt: "i < length closes" by simp_all
    have "py_max (slice closes (i - 3) (i + 1)) \<le> closes ! i
        \<longleftrightarrow> (\<forall>y \<in> {closes ! k | k. i - 3 \<le> k \<and> k < i + 1}. y \<le> closes ! i)"
      unfolding py_max_le [OF slice_before_nonempty [OF lt]] slice_set [OF le] ..
    also have "\<dots> \<longleftrightarrow> (\<forall>k. i - 3 \<le> k \<and> k < i + 1 \<longrightarrow> closes ! k \<le> closes ! i)"
      by blast
    finally show ?thesis unfolding window_before [OF i3] by simp
  qed
  have after: "py_max (slice closes (i + 1) (min (length closes) (i + 4))) \<le> closes ! i
      \<longleftrightarrow> closes ! (i + 1) \<le> closes ! i \<and> closes ! (i + 2) \<le> closes ! i
          \<and> closes ! (i + 3) \<le> closes ! i"
  proof -
    from True have m: "min (length closes) (i + 4) = i + 4" by simp
    from True have ne: "slice closes (i + 1) (i + 4) \<noteq> []" by (simp add: slice_def)
    from True have le: "i + 4 \<le> length closes" by simp
    have "py_max (slice closes (i + 1) (i + 4)) \<le> closes ! i
        \<longleftrightarrow> (\<forall>y \<in> {closes ! k | k. i + 1 \<le> k \<and> k < i + 4}. y \<le> closes ! i)"
      unfolding py_max_le [OF ne] slice_set [OF le] ..
    also have "\<dots> \<longleftrightarrow> (\<forall>k. i + 1 \<le> k \<and> k < i + 4 \<longrightarrow> closes ! k \<le> closes ! i)"
      by blast
    finally show ?thesis unfolding m window_after .
  qed
  from assms have "i < s + 30" by simp
  with assms(1) True before after show ?thesis
    unfolding end_test_def up_end_candidate_def Let_def by auto
qed

text \<open>
  C6, as the code has it. The end of an Up leg that starts at bar \<open>s\<close> with price
  \<open>sp\<close> is the first bar \<open>i\<close> with \<open>s + 5 \<le> i < s + 30\<close> that has three bars
  after it in the series, has risen at least 10 percent from \<open>sp\<close> and closes no
  lower than each of the three bars before it and each of the three bars after it. When
  no bar qualifies the leg ends at bar \<open>s + 29\<close> or at the last bar of the series.
  The end price is the close of the end bar.
\<close>

theorem up_leg_end:
  "(if \<exists>i. up_end_candidate closes s sp i
    then up_end_candidate closes s sp (fst (find_end closes Up s sp))
         \<and> (\<forall>j < fst (find_end closes Up s sp). \<not> up_end_candidate closes s sp j)
    else fst (find_end closes Up s sp) = min (s + 29) (length closes - 1))
   \<and> snd (find_end closes Up s sp) = closes ! fst (find_end closes Up s sp)"
proof -
  let ?r = "[s + 5 ..< min (s + 30) (length closes)]"
  have inr: "i \<in> set ?r" if "up_end_candidate closes s sp i" for i
    using that by (simp add: up_end_candidate_def)
  have eq: "end_test closes Up sp i = up_end_candidate closes s sp i" if "i \<in> set ?r" for i
    using that by (intro end_test_up) simp_all
  show ?thesis
  proof (cases "find (end_test closes Up sp) ?r")
    case None
    then have "\<not> end_test closes Up sp i" if "i \<in> set ?r" for i
      using that by (simp add: find_None_iff)
    with inr eq have "\<not> up_end_candidate closes s sp i" for i by blast
    with None show ?thesis by (simp add: find_end_def Let_def)
  next
    case (Some e)
    then obtain k where k: "k < length ?r" "end_test closes Up sp (?r ! k)" "e = ?r ! k"
      "\<forall>j<k. \<not> end_test closes Up sp (?r ! j)"
      by (auto simp: find_Some_iff)
    from k(1) have "k < min (s + 30) (length closes) - (s + 5)" by simp
    then have "s + 5 + k < min (s + 30) (length closes)" by arith
    with k(3) have e: "e = s + 5 + k" "e \<in> set ?r" by simp_all
    from k(2,3) eq [OF e(2)] have cand: "up_end_candidate closes s sp e" by simp
    have least: "\<not> up_end_candidate closes s sp j" if "j < e" for j
    proof
      assume c: "up_end_candidate closes s sp j"
      then have j: "j \<in> set ?r" by (rule inr)
      then have "s + 5 \<le> j" by simp
      with that e(1) have jk: "j - (s + 5) < k" by simp
      from j have "s + 5 + (j - (s + 5)) < min (s + 30) (length closes)" by simp
      then have "?r ! (j - (s + 5)) = s + 5 + (j - (s + 5))" by (rule nth_upt)
      with \<open>s + 5 \<le> j\<close> have "?r ! (j - (s + 5)) = j" by simp
      with k(4) jk have "\<not> end_test closes Up sp j" by metis
      with eq [OF j] c show False by simp
    qed
    from cand least Some show ?thesis by (auto simp: find_end_def)
  qed
qed

theorem up_leg_end_witness:
  "up_end_candidate demo_closes 0 100 (fst (find_end demo_closes Up 0 100))
   \<and> find_end demo_closes Up 0 100 = (6, 112)"
proof -
  have "up_end_candidate demo_closes 0 100 6" by code_simp
  then have "\<exists>i. up_end_candidate demo_closes 0 100 i" ..
  with up_leg_end [of demo_closes 0 100]
  have "up_end_candidate demo_closes 0 100 (fst (find_end demo_closes Up 0 100))" by simp
  moreover have "find_end demo_closes Up 0 100 = (6, 112)" by code_simp
  ultimately show ?thesis ..
qed

text \<open>
  C6, as the claim words it, fails: a bar among the last three of the series is never
  confirmed with a shortened window, it is skipped. In the flat series \<open>edge_closes\<close>
  the jump of bar 28 qualifies under a shortened window, yet the code forces the leg to
  end at bar 29.
\<close>

theorem up_leg_end_edge_counterexample:
  "find_start edge_closes 0 Up = (0, 100)
   \<and> fst (find_end edge_closes Up 0 100) = 29
   \<and> spec_up_end edge_closes 0 100 = 28"
  by code_simp

text \<open>
  C5. The code does not read the bars of the leg: the loop over the leg takes the
  candle (open, close, low) of bar \<open>i\<close> of the whole series, counted from its first
  bar, and only the volume from the leg. For the second rally of the sample series (bars
  14 to 20) it records 104, the low of bar 3, although the lowest low of a qualifying
  bar inside the leg is 110 and no bar of the leg has a low below 104.
\<close>

theorem wave_support_reads_series_start:
  "wave_support demo_bars 14 20 = Some 104 \<and> spec_support demo_bars 14 20 = Some 110
   \<and> map support_level (fst (segment demo_bars)) = [Some 104, None, Some 104, None, Some 104]
   \<and> map b_low (slice demo_bars 14 21) = [104, 106, 108, 110, 112, 114, 116]"
  by code_simp

section \<open>Properties of the three-wave detector\<close>

subsection \<open>Quality score\<close>

lemma fold_band_count:
  "fold (\<lambda>w sc. if P w then sc + 10 else sc) xs (a::int)
     = a + 10 * int (length (filter P xs))"
  by (induction xs arbitrary: a) auto

lemma quality_score_sum:
  "quality_score up_waves ws sls
     = 10 * int (length (filter in_band (take 3 up_waves)))
       + (if total_days ws \<le> 90 then 20 else 0)
       + (if 2 \<le> length sls then 20 else 0)"
  by (simp add: quality_score_def fold_band_count)

lemma quality_score_le_70: "quality_score up_waves ws sls \<le> 70"
proof -
  have "length (filter in_band (take 3 up_waves)) \<le> length (take 3 up_waves)"
    by (rule length_filter_le)
  also have "\<dots> \<le> 3" by simp
  finally have "int (length (filter in_band (take 3 up_waves))) \<le> 3" by simp
  then show ?thesis by (simp add: quality_score_sum)
qed

lemma analyse_confirmed:
  assumes "analyse prm ws sls = Confirmed r"
  defines "ups \<equiv> filter (\<lambda>w. wave_type w = Up) ws"
  shows "r_waves r = ws" and "r_support_levels r = take 3 sls"
    and "3 \<le> length ups"
    and "end_price (ups ! 0) < end_price (ups ! 1)"
    and "end_price (ups ! 1) < end_price (ups ! 2)"
    and "2 \<le> length sls"
    and "min_wave_score prm \<le> quality_score ups ws sls"
    and "r_quality_score r = quality_score ups ws sls"
proof -
  from assms(1) have len: "3 \<le> length ups"
    unfolding analyse_def ups_def Let_def by (simp split: if_splits)
  from assms(1) len
  have rest: "map end_price (take 3 ups) ! 0 < map end_price (take 3 ups) ! 1"
       "map end_price (take 3 ups) ! 1 < map end_price (take 3 ups) ! 2"
       "2 \<le> length sls" "min_wave_score prm \<le> quality_score ups ws sls"
       "r_waves r = ws" "r_support_levels r = take 3 sls"
       "r_quality_score r = min 100 (quality_score ups ws sls)"
    unfolding analyse_def ups_def Let_def by (auto split: if_splits)
  show "3 \<le> length ups" by (rule len)
  from rest(1,2) len show "end_price (ups ! 0) < end_price (ups ! 1)"
    and "end_price (ups ! 1) < end_price (ups ! 2)" by simp_all
  from rest show "2 \<le> length sls" and "min_wave_score prm \<le> quality_score ups ws sls"
    and "r_waves r = ws" and "r_support_levels r = take 3 sls" by simp_all
  from rest(7) quality_score_le_70 [of ups ws sls]
  show "r_quality_score r = quality_score ups ws sls" by simp
qed

lemma identify_three_waves_confirmed:
  assumes "identify_three_waves prm fetched sd = Confirmed r"
  shows "\<exists>ws sls. analyse prm ws sls = Confirmed r"
  using assms
  by (auto simp: identify_three_waves_def split: fetch_result.splits option.splits if_splits
        prod.splits)

text \<open>
  C1. Whenever the three-wave detector returns a confirmed result, the returned legs
  contain at least 3 Up legs, the end prices of the first three Up legs increase
  strictly, the returned support levels have at least 2 entries, and the returned
  quality score is at least the configured minimum.
\<close>

theorem confirmed_pattern_invariant:
  assumes "identify_three_waves prm fetched sd = Confirmed r"
  shows "3 \<le> length (filter (\<lambda>w. wave_type w = Up) (r_waves r))
         \<and> end_price (filter (\<lambda>w. wave_type w = Up) (r_waves r) ! 0)
             < end_price (filter (\<lambda>w. wave_type w = Up) (r_waves r) ! 1)
         \<and> end_price (filter (\<lambda>w. wave_type w = Up) (r_waves r) ! 1)
             < end_price (filter (\<lambda>w. wave_type w = Up) (r_waves r) ! 2)
         \<and> 2 \<le> length (r_support_levels r)
         \<and> min_wave_score prm \<le> r_quality_score r"
proof -
  from identify_three_waves_confirmed [OF assms]
  obtain ws sls where a: "analyse prm ws sls = Confirmed r" by blast
  note f = analyse_confirmed [OF a]
  from f(6) have "2 \<le> length (take 3 sls)" by simp
  with f show ?thesis by simp
qed

lemma demo_result:
  "identify_three_waves default_params (Data demo_bars) 0 =
     Confirmed
      \<lparr>wave_count = 5,
       r_waves =
         [\<lparr>wave_type = Up, start_date = 0, end_date = 6, start_price = 100,
           end_price = 112, change_pct = Fin 12, duration = 7, support_level = Some 104\<rparr>,
          \<lparr>wave_type = Down, start_date = 7, end_date = 13, start_price = 111,
           end_price = 105, change_pct = Fin (- (200 / 37)), duration = 7,
           support_level = None\<rparr>,
          \<lparr>wave_type = Up, start_date = 14, end_date = 20, start_price = 106,
           end_price = 118, change_pct = Fin (600 / 53), duration = 7,
           support_level = Some 104\<rparr>,
          \<lparr>wave_type = Down, start_date = 21, end_date = 27, start_price = 117,
           end_price = 111, change_pct = Fin (- (200 / 39)), duration = 7,
           support_level = None\<rparr>,
          \<lparr>wave_type = Up, start_date = 28, end_date = 34, start_price = 112,
           end_price = 124, change_pct = Fin (75 / 7), duration = 7,
           support_level = Some 104\<rparr>],
       r_support_levels = [104, 104, 104], r_wave_highs = [112, 118, 124],
       r_wave3_high = 124, strongest_support = Some 104, total_rise_pct = 24,
       r_total_days = 35, r_quality_score = 70\<rparr>"
  by code_simp

theorem confirmed_pattern_invariant_witness:
  "confirmed (identify_three_waves default_params (Data demo_bars) 0)
   \<and> min_wave_score default_params \<le> 70"
  using confirmed_pattern_invariant [OF demo_result]
  by (simp add: demo_result)

text \<open>
  C9. Once at least three Up legs with rising highs and at least two support levels are
  found, the quality score is 10 for each of the first three Up legs whose change lies
  in \<open>[10, 20]\<close>, plus 20 when the durations of all legs sum to at most 90, plus 20
  for the two support levels. Detection fails with the quality reason exactly when this
  total is below the configured minimum. Three Up legs in the band with a total duration
  of at most 90 score 70.
\<close>

theorem quality_score_rule:
  assumes "ups = filter (\<lambda>w. wave_type w = Up) ws" and "3 \<le> length ups"
    and "end_price (ups ! 0) < end_price (ups ! 1)"
    and "end_price (ups ! 1) < end_price (ups ! 2)"
    and "2 \<le> length sls"
  shows "quality_score ups ws sls
           = 10 * int (length (filter in_band (take 3 ups)))
             + (if total_days ws \<le> 90 then 20 else 0)
             + (if 2 \<le> length sls then 20 else 0)
         \<and> (quality_score ups ws sls < min_wave_score prm \<longrightarrow>
               analyse prm ws sls = NotConfirmed (LowQuality (quality_score ups ws sls)))
         \<and> (min_wave_score prm \<le> quality_score ups ws sls \<longrightarrow>
               (\<forall>sc. analyse prm ws sls \<noteq> NotConfirmed (LowQuality sc)))
         \<and> (list_all in_band (take 3 ups) \<and> total_days ws \<le> 90 \<longrightarrow>
               quality_score ups ws sls = 70)"
proof -
  have highs: "map end_price (take 3 ups) ! 0 < map end_price (take 3 ups) ! 1"
    "map end_price (take 3 ups) ! 1 < map end_price (take 3 ups) ! 2"
    using assms(2-4) by simp_all
  have low: "analyse prm ws sls = NotConfirmed (LowQuality (quality_score ups ws sls))"
    if "quality_score ups ws sls < min_wave_score prm"
    using that assms(2,5) highs unfolding analyse_def Let_def assms(1) [symmetric] by simp
  have ok: "analyse prm ws sls \<noteq> NotConfirmed (LowQuality sc)"
    if "min_wave_score prm \<le> quality_score ups ws sls" for sc
    using that assms(2,5) highs unfolding analyse_def Let_def assms(1) [symmetric] by simp
  have full: "quality_score ups ws sls = 70"
    if "list_all in_band (take 3 ups)" "total_days ws \<le> 90"
  proof -
    from that(1) have "filter in_band (take 3 ups) = take 3 ups"
      by (simp add: list_all_iff)
    with assms(2,5) that(2) show ?thesis by (simp add: quality_score_sum)
  qed
  from low ok full show ?thesis by (simp add: quality_score_sum)
qed

theorem quality_score_rule_witness:
  "analyse (default_params\<lparr>min_wave_score := 80\<rparr>) (fst (segment demo_bars)) (snd (segment demo_bars))
     = NotConfirmed (LowQuality 70)
   \<and> quality_score (filter (\<lambda>w. wave_type w = Up) (fst (segment demo_bars)))
        (fst (segment demo_bars)) (snd (segment demo_bars)) = 70"
proof -
  let ?ws = "fst (segment demo_bars)" and ?sls = "snd (segment demo_bars)"
  let ?ups = "filter (\<lambda>w. wave_type w = Up) ?ws"
  have h1: "3 \<le> length ?ups" by code_simp
  have h2: "end_price (?ups ! 0) < end_price (?ups ! 1)" by code_simp
  have h3: "end_price (?ups ! 1) < end_price (?ups ! 2)" by code_simp
  have h4: "2 \<le> length ?sls" by code_simp
  have h5: "list_all in_band (take 3 ?ups) \<and> total_days ?ws \<le> 90" by code_simp
  from quality_score_rule [OF refl h1 h2 h3 h4, of "default_params\<lparr>min_wave_score := 80\<rparr>"] h5
  show ?thesis by simp
qed

section \<open>Properties of the consolidation detector\<close>

text \<open>
  C2. A window of at least 20 bars with at least one support level is accepted: a result
  is returned, and its flag \<open>is_consolidating\<close> holds exactly when the returned
  \<open>in_range_ratio\<close> is at least 0.7 and the returned \<open>volume_ratio\<close> is below 1.5. So a
  \<open>volume_ratio\<close> of 1.5 or more gives a false flag whatever the \<open>in_range_ratio\<close>.
\<close>

theorem check_consolidation_flag:
  assumes "20 \<le> length price_data" and "support_levels \<noteq> []"
  shows "\<exists>r. check_consolidation (Data price_data) wave3_high support_levels = Some r
            \<and> (is_consolidating r \<longleftrightarrow> 0.7 \<le> in_range_ratio r \<and> volume_ratio r < 1.5)
            \<and> (1.5 \<le> volume_ratio r \<longrightarrow> \<not> is_consolidating r)"
  using assms by (auto simp: check_consolidation_def Let_def)

theorem check_consolidation_flag_witness:
  "check_consolidation (Data (take 20 demo_bars)) 124 [104] \<noteq> None"
proof -
  have len: "20 \<le> length (take 20 demo_bars)" by (simp add: demo_bars_def)
  have ne: "[104::real] \<noteq> []" by simp
  from check_consolidation_flag [OF len ne, of 124] show ?thesis by auto
qed

section \<open>Properties of the composite scorer\<close>

lemma clamp_max_min: "max (- 50) (min x 50) = spec_clamp x (- 50) (50::real)"
  by (simp add: spec_clamp_def max_def min_def)

text \<open>
  C3. The composite score is the strength base (100 for strong, 60 for medium, 30 for
  weak) plus the auxiliary bonus: the shareholder-change factor times \<open>-10\<close>, clamped to
  \<open>[-50, 50]\<close>, or 0 when the factor is absent. A positive factor gives a negative raw
  term, so it lowers the score.
\<close>

theorem composite_score_formula:
  "calculate_composite_score sig
     = strength_score (signal_strength sig) + spec_auxiliary_bonus (shareholder_change sig)
   \<and> strength_score ''strong'' = 100 \<and> strength_score ''medium'' = 60
   \<and> strength_score ''weak'' = 30
   \<and> (\<forall>a. shareholder_change sig = Some a \<and> 0 < a \<longrightarrow>
        a * (- 10) < 0
        \<and> calculate_composite_score sig < strength_score (signal_strength sig))"
  by (auto simp: calculate_composite_score_def spec_auxiliary_bonus_def clamp_max_min
        strength_score_def spec_clamp_def split: option.splits)

theorem composite_score_formula_witness:
  "calculate_composite_score
     \<lparr>stock_code = ''000001.XSHE'', stock_name = ''A'', signal_strength = ''medium'',
      s_position_ratio = 0.06, entry_price = 10, stop_loss = 8, take_profit = 12,
      shareholder_change = Some 2, s_volume_ratio = 1.3, s_price_change = 5,
      turnover_ratio = 8, s_buy_time = 0\<rparr> = 40"
  using composite_score_formula [of "\<lparr>stock_code = ''000001.XSHE'', stock_name = ''A'',
      signal_strength = ''medium'',
      s_position_ratio = 0.06, entry_price = 10, stop_loss = 8, take_profit = 12,
      shareholder_change = Some 2, s_volume_ratio = 1.3, s_price_change = 5,
      turnover_ratio = 8, s_buy_time = 0\<rparr>"]
  by (simp add: spec_auxiliary_bonus_def spec_clamp_def)

section \<open>Properties of the A-kill detector\<close>

text \<open>
  C10. \<open>identify_A_kill\<close> always sets \<open>has_A_kill\<close>. When the fetch fails, when
  fewer than 60 bars come back, or when the change from the lowest close to the highest
  high is not above 30 percent, its result has no \<open>A_bottom_date\<close>, and then
  \<open>generate_trade_signal\<close> returns \<open>None\<close>: the lookup of the missing key raises
  inside its handler.
\<close>

theorem a_kill_without_bottom_date:
  "has_A_kill (identify_A_kill (akill_fetch env))
   \<and> ((case akill_fetch env of
          Raised \<Rightarrow> True
        | NoData \<Rightarrow> True
        | Data price_data \<Rightarrow>
            length price_data < 60
            \<or> \<not> np_gt (pct_change (py_max (map b_high price_data))
                         (py_min (map b_close price_data))) 30)
       \<longrightarrow> A_bottom_date (identify_A_kill (akill_fetch env)) = None
           \<and> generate_trade_signal prm env code name price_change turnover current_date = None)"
proof -
  have flag: "has_A_kill (identify_A_kill f)" for f
    by (simp add: identify_A_kill_def only_flag_def Let_def split: fetch_result.splits)
  have none: "generate_trade_signal prm env code name price_change turnover current_date = None"
    if "A_bottom_date (identify_A_kill (akill_fetch env)) = None"
    using that by (simp add: generate_trade_signal_def Let_def)
  have nodate: "A_bottom_date (identify_A_kill (akill_fetch env)) = None"
    if "case akill_fetch env of
          Raised \<Rightarrow> True
        | NoData \<Rightarrow> True
        | Data price_data \<Rightarrow>
            length price_data < 60
            \<or> \<not> np_gt (pct_change (py_max (map b_high price_data))
                         (py_min (map b_close price_data))) 30"
    using that
    by (auto simp: identify_A_kill_def only_flag_def Let_def split: fetch_result.splits)
  show ?thesis
  proof (intro conjI impI)
    show "has_A_kill (identify_A_kill (akill_fetch env))" by (rule flag)
  next
    assume "case akill_fetch env of
          Raised \<Rightarrow> True
        | NoData \<Rightarrow> True
        | Data price_data \<Rightarrow>
            length price_data < 60
            \<or> \<not> np_gt (pct_change (py_max (map b_high price_data))
                         (py_min (map b_close price_data))) 30"
    then have n: "A_bottom_date (identify_A_kill (akill_fetch env)) = None" by (rule nodate)
    then show "A_bottom_date (identify_A_kill (akill_fetch env)) = None" .
    from n show "generate_trade_signal prm env code name price_change turnover current_date = None"
      by (rule none)
  qed
qed

theorem a_kill_without_bottom_date_witness:
  "identify_A_kill (akill_fetch (demo_env (Data demo_bars))) = only_flag
   \<and> generate_trade_signal default_params (demo_env (Data demo_bars))
        ''000001.XSHE'' ''A'' 5 8 44 = None
   \<and> generate_trade_signal default_params (demo_env Raised) ''000001.XSHE'' ''A'' 5 8 44 = None"
proof -
  have short: "length demo_bars < 60" by (simp add: demo_bars_def)
  have "A_bottom_date (identify_A_kill (akill_fetch (demo_env (Data demo_bars)))) = None
        \<and> generate_trade_signal default_params (demo_env (Data demo_bars))
            ''000001.XSHE'' ''A'' 5 8 44 = None"
    using a_kill_without_bottom_date
      [of "demo_env (Data demo_bars)" default_params "''000001.XSHE''" "''A''" 5 8 44] short
    by (simp add: demo_env_def)
  moreover have "generate_trade_signal default_params (demo_env Raised)
            ''000001.XSHE'' ''A'' 5 8 44 = None"
    using a_kill_without_bottom_date
      [of "demo_env Raised" default_params "''000001.XSHE''" "''A''" 5 8 44]
    by (simp add: demo_env_def)
  moreover have "identify_A_kill (akill_fetch (demo_env (Data demo_bars))) = only_flag"
    using short by (simp add: demo_env_def identify_A_kill_def)
  ultimately show ?thesis by simp
qed

section \<open>Properties of the position lifecycle\<close>

lemma exit_body_fst: "fst (fst (exit_body prm ctx t e)) = fst e"
  by (auto simp: exit_body_def immediate_entry_def tail_entry_def Let_def split: option.splits)

lemma exit_body_selling: "selling (snd e) \<Longrightarrow> exit_body prm ctx t e = (e, False)"
  by (simp add: exit_body_def immediate_entry_def tail_entry_def)

lemma exit_body_ordered:
  "snd (exit_body prm ctx t e) \<Longrightarrow> selling (snd (fst (exit_body prm ctx t e)))"
  by (auto simp: exit_body_def immediate_entry_def tail_entry_def Let_def mark_selling_def
        split: option.splits if_splits)

lemma for_positions_fst: "fst (for_positions body es) = map (\<lambda>e. fst (body e)) es"
  by (induction es) (auto split: prod.splits)

lemma for_positions_snd: "snd (for_positions body es) = map fst (filter (\<lambda>e. snd (body e)) es)"
  by (induction es) (auto split: prod.splits)

lemma for_positions_keys:
  "map fst (fst (for_positions (exit_body prm ctx t) es)) = map fst es"
  by (simp add: for_positions_fst exit_body_fst)

lemma pending_no_order:
  "pending c es \<Longrightarrow> c \<notin> set (snd (for_positions (exit_body prm ctx t) es))"
  by (auto simp: pending_def for_positions_snd list_all_iff exit_body_selling)

lemma pending_kept:
  "pending c es \<Longrightarrow> pending c (fst (for_positions (exit_body prm ctx t) es))"
  by (auto simp: pending_def for_positions_fst list_all_iff exit_body_selling exit_body_fst)

lemma absent_no_order:
  "c \<notin> fst ` set es \<Longrightarrow> c \<notin> set (snd (for_positions body es))"
  by (auto simp: for_positions_snd)

lemma absent_pending: "c \<notin> fst ` set es \<Longrightarrow> pending c es"
  by (auto simp: pending_def list_all_iff)

lemma distinct_count_le_1: "distinct xs \<Longrightarrow> count_list xs x \<le> 1"
  by (induction xs) auto

lemma one_order:
  "distinct (map fst es) \<Longrightarrow> count_list (snd (for_positions (exit_body prm ctx t) es)) c \<le> 1"
proof -
  assume "distinct (map fst es)"
  then have "distinct (map fst (filter (\<lambda>e. snd (exit_body prm ctx t e)) es))"
    by (rule distinct_map_filter)
  then have "count_list (map fst (filter (\<lambda>e. snd (exit_body prm ctx t e)) es)) c \<le> 1"
    by (rule distinct_count_le_1)
  then show ?thesis
    by (simp only: for_positions_snd)
qed

lemma order_then_pending:
  assumes "distinct (map fst es)"
    and "c \<in> set (snd (for_positions (exit_body prm ctx t) es))"
  shows "pending c (fst (for_positions (exit_body prm ctx t) es))"
proof -
  from assms(2) obtain e where e: "e \<in> set es" "snd (exit_body prm ctx t e)" "fst e = c"
    by (auto simp: for_positions_snd)
  have "selling (snd (fst (exit_body prm ctx t e')))" if "e' \<in> set es" "fst e' = c" for e'
  proof -
    from assms(1) e(1) that e(3) have "e' = e"
      by (metis eq_key_imp_eq_value prod.collapse)
    with e(2) show ?thesis by (simp add: exit_body_ordered)
  qed
  then show ?thesis
    by (auto simp: pending_def for_positions_fst list_all_iff exit_body_fst)
qed

lemma cleanup_pending:
  "pending c (g_positions st) \<Longrightarrow> pending c (g_positions (cleanup_sold_positions ctx st))"
  by (auto simp: cleanup_sold_positions_def pending_def list_all_iff)

lemma cleanup_distinct:
  "distinct (map fst (g_positions st))
     \<Longrightarrow> distinct (map fst (g_positions (cleanup_sold_positions ctx st)))"
  by (simp add: cleanup_sold_positions_def distinct_map_filter)

lemma cleanup_submitted: "submitted (cleanup_sold_positions ctx st) = submitted st"
  by (simp add: cleanup_sold_positions_def)

lemma exit_loop_alt:
  "exit_loop prm ctx t st =
     st\<lparr>g_positions := fst (for_positions (exit_body prm ctx t) (g_positions st)),
        submitted := submitted st @ snd (for_positions (exit_body prm ctx t) (g_positions st))\<rparr>"
  by (simp add: exit_loop_def case_prod_beta)

lemma exit_loop_pending:
  assumes "pending c (g_positions st)"
  shows "pending c (g_positions (exit_loop prm ctx t st))"
    and "orders_for c (exit_loop prm ctx t st) = orders_for c st"
  using pending_kept [OF assms, of prm ctx t] pending_no_order [OF assms, of prm ctx t]
  by (simp_all add: exit_loop_alt orders_for_def)

lemma exit_loop_distinct:
  assumes "distinct (map fst (g_positions st))"
  shows "distinct (map fst (g_positions (exit_loop prm ctx t st)))"
    and "orders_for c (exit_loop prm ctx t st) \<le> orders_for c st + 1"
    and "orders_for c (exit_loop prm ctx t st) \<noteq> orders_for c st
           \<Longrightarrow> pending c (g_positions (exit_loop prm ctx t st))"
proof -
  show "distinct (map fst (g_positions (exit_loop prm ctx t st)))"
    using assms by (simp add: exit_loop_alt for_positions_keys)
  show "orders_for c (exit_loop prm ctx t st) \<le> orders_for c st + 1"
    using one_order [OF assms, of prm ctx t c]
    by (simp add: exit_loop_alt orders_for_def)
  assume "orders_for c (exit_loop prm ctx t st) \<noteq> orders_for c st"
  then have "c \<in> set (snd (for_positions (exit_body prm ctx t) (g_positions st)))"
    by (auto simp: exit_loop_alt orders_for_def count_list_0_iff)
  then show "pending c (g_positions (exit_loop prm ctx t st))"
    using order_then_pending [OF assms, of c prm ctx t]
    by (simp add: exit_loop_alt)
qed

lemma check_immediate_stops_loop:
  "check_immediate_stops prm ctx st = st
   \<or> check_immediate_stops prm ctx st = exit_loop prm ctx False st"
  by (simp add: check_immediate_stops_def exit_loop_def exit_body_def)

lemma check_tail_position_loop:
  "check_tail_position prm ctx st = st
   \<or> check_tail_position prm ctx st = cleanup_sold_positions ctx (exit_loop prm ctx True st)"
  by (simp add: check_tail_position_def exit_loop_def exit_body_def case_prod_beta)

lemma run_check_cases:
  "run_check prm chk st = st
   \<or> (\<exists>ctx t. run_check prm chk st = exit_loop prm ctx t st)
   \<or> (\<exists>ctx t. run_check prm chk st = cleanup_sold_positions ctx (exit_loop prm ctx t st))
   \<or> (\<exists>ctx. run_check prm chk st = cleanup_sold_positions ctx st)"
proof (cases chk)
  case (Immediate ctx)
  with check_immediate_stops_loop [of prm ctx st] show ?thesis by auto
next
  case (Minute ctx)
  have "handle_data prm ctx st = st
        \<or> handle_data prm ctx st = cleanup_sold_positions ctx st
        \<or> handle_data prm ctx st = cleanup_sold_positions ctx (exit_loop prm ctx False st)"
    using check_immediate_stops_loop [of prm ctx st] by (auto simp: handle_data_def)
  with Minute show ?thesis by (simp del: ex_simps) blast
next
  case (Tail ctx)
  with check_tail_position_loop [of prm ctx st] show ?thesis by auto
qed

lemma run_check_pending:
  assumes "pending c (g_positions st)"
  shows "pending c (g_positions (run_check prm chk st))
         \<and> orders_for c (run_check prm chk st) = orders_for c st"
  using run_check_cases [of prm chk st] exit_loop_pending [OF assms] cleanup_pending assms
  by (auto simp: orders_for_def cleanup_submitted)

lemma run_check_distinct:
  assumes "distinct (map fst (g_positions st))"
  shows "distinct (map fst (g_positions (run_check prm chk st)))
         \<and> orders_for c (run_check prm chk st) \<le> orders_for c st + 1
         \<and> (orders_for c (run_check prm chk st) \<noteq> orders_for c st
              \<longrightarrow> pending c (g_positions (run_check prm chk st)))"
  using run_check_cases [of prm chk st] exit_loop_distinct [OF assms] cleanup_pending
    cleanup_distinct assms
  by (auto simp: orders_for_def cleanup_submitted)

lemma run_checks_pending:
  "pending c (g_positions st) \<Longrightarrow> orders_for c (run_checks prm cs st) = orders_for c st"
proof (induction cs arbitrary: st)
  case Nil
  then show ?case by simp
next
  case (Cons chk cs)
  from run_check_pending [OF Cons.prems, of prm chk]
  show ?case using Cons.IH [of "run_check prm chk st"] by simp
qed

lemma run_checks_one_order:
  "distinct (map fst (g_positions st))
     \<Longrightarrow> orders_for c (run_checks prm cs st) \<le> orders_for c st + 1"
proof (induction cs arbitrary: st)
  case Nil
  then show ?case by simp
next
  case (Cons chk cs)
  note step = run_check_distinct [OF Cons.prems, of prm chk c]
  show ?case
  proof (cases "orders_for c (run_check prm chk st) = orders_for c st")
    case True
    with step Cons.IH [of "run_check prm chk st"] show ?thesis by simp
  next
    case False
    with step have "pending c (g_positions (run_check prm chk st))" by simp
    then have "orders_for c (run_checks prm cs (run_check prm chk st))
                 = orders_for c (run_check prm chk st)"
      by (rule run_checks_pending)
    with step show ?thesis by simp
  qed
qed

text \<open>
  C4. Over any sequence of exit checks (the immediate check, the minute handler, the
  late-session check) from a state whose position map has one entry for each key, at
  most one close order is submitted for an instrument; and when the instrument's position
  is already flagged \<open>selling\<close>, none is submitted.
\<close>

theorem pending_close_idempotent:
  assumes "distinct (map fst (g_positions st))"
  shows "orders_for c (run_checks prm cs st) \<le> orders_for c st + 1
         \<and> (\<forall>pos. map_of (g_positions st) c = Some pos \<and> selling pos \<longrightarrow>
               orders_for c (run_checks prm cs st) = orders_for c st)"
proof -
  have "orders_for c (run_checks prm cs st) = orders_for c st"
    if "map_of (g_positions st) c = Some pos" "selling pos" for pos
  proof -
    have "pending c (g_positions st)"
      unfolding pending_def list_all_iff
    proof
      fix e assume "e \<in> set (g_positions st)"
      then have "map_of (g_positions st) (fst e) = Some (snd e)"
        using assms by (simp add: map_of_eq_Some_iff)
      with that show "fst e \<noteq> c \<or> selling (snd e)" by auto
    qed
    then show ?thesis by (rule run_checks_pending)
  qed
  with run_checks_one_order [OF assms, of c prm cs] show ?thesis by blast
qed

theorem pending_close_idempotent_witness:
  "distinct (map fst (g_positions (demo_state False)))
   \<and> orders_for ''000001.XSHE''
        (run_checks default_params
           [Minute (demo_context 10 0), Immediate (demo_context 10 1), Tail (demo_context 14 55)]
           (demo_state False)) = 1
   \<and> orders_for ''000001.XSHE''
        (run_checks default_params
           [Minute (demo_context 10 0), Immediate (demo_context 10 1), Tail (demo_context 14 55)]
           (demo_state True)) = 0"
proof -
  have d: "distinct (map fst (g_positions (demo_state b)))" for b
    by (simp add: demo_state_def)
  show ?thesis
    using d [of False] d [of True]
      pending_close_idempotent [OF d [of True], of "''000001.XSHE''" default_params
        "[Minute (demo_context 10 0), Immediate (demo_context 10 1), Tail (demo_context 14 55)]"]
      pending_close_idempotent [OF d [of False], of "''000001.XSHE''" default_params
        "[Minute (demo_context 10 0), Immediate (demo_context 10 1), Tail (demo_context 14 55)]"]
    by (simp add: demo_state_def demo_context_def demo_position_def default_params_def
        handle_data_def check_immediate_stops_def immediate_entry_def mark_selling_def
        check_tail_position_def tail_entry_def
        cleanup_sold_positions_def held_amount_def orders_for_def)
qed

text \<open>
  C7. The clean-up before the session does not look at the held quantity: it removes
  every entry flagged \<open>selling\<close>. A flagged position of which 100 shares are still
  held is dropped from the map, where \<open>cleanup_sold_positions\<close> keeps it.
\<close>

theorem morning_cleanup_drops_held_position:
  "held_amount (demo_context 9 25) ''000001.XSHE'' = 100
   \<and> g_positions (demo_state True) = [(''000001.XSHE'', demo_position\<lparr>selling := True\<rparr>)]
   \<and> g_positions (fst (morning_cleanup [] (demo_state True))) = []
   \<and> g_positions (cleanup_sold_positions (demo_context 9 25) (demo_state True))
       = [(''000001.XSHE'', demo_position\<lparr>selling := True\<rparr>)]"
  by (simp add: morning_cleanup_def cleanup_sold_positions_def demo_state_def demo_context_def
      held_amount_def)

end
